theory Spec2Isabelle
  imports Complex_Main
begin

section \<open>Data model\<close>

text \<open>
  The editor keeps JavaScript numbers (seconds) in its segments and words: IEEE 754
  binary64 values. They come from a JSON analysis result, so they are finite and never
  NaN. A number is modelled by the \<^typ>\<open>real\<close> it denotes. On such values the comparisons
  \<^verbatim>\<open>>=\<close> and \<^verbatim>\<open><=\<close> of the source are the order of the reals, and \<^verbatim>\<open>Math.max\<close> and
  \<^verbatim>\<open>Math.min\<close> are \<open>max\<close> and \<open>min\<close>. The arithmetic operations \<^verbatim>\<open>+\<close>, \<^verbatim>\<open>-\<close>, \<^verbatim>\<open>*\<close> and
  \<^verbatim>\<open>/\<close> give the exact result rounded to the nearest binary64 value, ties to the even
  significand: \<open>to_double\<close> below. The significand has 53 bits; below 2 to the power -1022
  the spacing stays that of the subnormal numbers. Overflow to \<^verbatim>\<open>Infinity\<close> (magnitudes from
  2 to the power 1024 on) is not modelled: no time in seconds comes near it. A JSON number
  such as \<^verbatim>\<open>40.33\<close> is read as the nearest binary64 value, \<open>to_double 40.33\<close>.
\<close>

definition round_half_even :: "real \<Rightarrow> int" where
  "round_half_even y =
     (let f = \<lfloor>y\<rfloor>; r = y - of_int f
      in if r < 1 / 2 then f else if 1 / 2 < r then f + 1 else if even f then f else f + 1)"

definition binary64_exponent :: "real \<Rightarrow> int" where
  "binary64_exponent x = max \<lfloor>log 2 \<bar>x\<bar>\<rfloor> (- 1022) - 52"

definition to_double :: "real \<Rightarrow> real" where
  "to_double x =
     (if x = 0 then 0
      else of_int (round_half_even (x / 2 powr of_int (binary64_exponent x)))
             * 2 powr of_int (binary64_exponent x))"

text \<open>
  \<^verbatim>\<open>end\<close> and \<^verbatim>\<open>text\<close> are keywords of Isabelle, so these two fields carry a prime.
\<close>

record time_range =
  start :: real
  end' :: real

record segment = time_range +
  keep :: bool
  is_silence :: bool
  text' :: "string option"

record word = time_range +
  word_text :: string

text \<open>
  The analysis result handed to \<^verbatim>\<open>EditorScreen\<close> as \<^verbatim>\<open>projectData\<close>. The source guards
  each field with a fallback (\<^verbatim>\<open>projectData.segments || []\<close>, \<^verbatim>\<open>projectData.duration || 0\<close>,
  \<^verbatim>\<open>projectData.transcript || []\<close>), so a field may be missing.
\<close>

record project_data =
  duration :: "real option"
  segments :: "segment list option"
  transcript :: "word list option"

section \<open>Segment Store (EditorScreen.jsx)\<close>

text \<open>\<^verbatim>\<open>{ ...seg, keep: !seg.keep }\<close>: a copy of the segment with only \<^verbatim>\<open>keep\<close> negated.\<close>

definition flip_keep :: "segment \<Rightarrow> segment" where
  "flip_keep seg = seg\<lparr>keep := \<not> keep seg\<rparr>"

text \<open>
  \<^verbatim>\<open>prev.map((seg, i) => i === index ? { ...seg, keep: !seg.keep } : seg)\<close>.
  The index is whatever number the caller passes; \<^verbatim>\<open>===\<close> compares it with each array
  position.
\<close>

definition toggleSegment :: "int \<Rightarrow> segment list \<Rightarrow> segment list" where
  "toggleSegment index prev =
     map (\<lambda>(i, seg). if int i = index then flip_keep seg else seg) (List.enumerate 0 prev)"

text \<open>
  \<^verbatim>\<open>prev.map(seg => { if (seg.start >= startTime && seg.end <= endTime) {
       return { ...seg, keep: !seg.keep } } return seg })\<close>
\<close>

definition toggleWordRange :: "real \<Rightarrow> real \<Rightarrow> segment list \<Rightarrow> segment list" where
  "toggleWordRange startTime endTime prev =
     map (\<lambda>seg. if start seg \<ge> startTime \<and> end' seg \<le> endTime then flip_keep seg else seg) prev"

text \<open>\<^verbatim>\<open>projectData.segments || []\<close>: an array, even an empty one, is truthy.\<close>

definition initial_segments :: "project_data \<Rightarrow> segment list" where
  "initial_segments projectData = (case segments projectData of None \<Rightarrow> [] | Some segs \<Rightarrow> segs)"

text \<open>\<^verbatim>\<open>resetEdits\<close>: \<^verbatim>\<open>setSegments(projectData.segments || [])\<close>; the previous list is not read.\<close>

definition resetEdits :: "project_data \<Rightarrow> segment list \<Rightarrow> segment list" where
  "resetEdits projectData prev = initial_segments projectData"

text \<open>
  The derived statistics, recomputed from the current list on every render:
  \<^verbatim>\<open>totalDuration = projectData.duration || 0\<close> (0 is falsy),
  \<^verbatim>\<open>keptDuration = segments.filter(s => s.keep).reduce((acc, s) => acc + (s.end - s.start), 0)\<close>,
  \<^verbatim>\<open>removedDuration = totalDuration - keptDuration\<close>.
\<close>

definition totalDuration :: "project_data \<Rightarrow> real" where
  "totalDuration projectData =
     (case duration projectData of None \<Rightarrow> 0 | Some d \<Rightarrow> if d = 0 then 0 else d)"

definition keptDuration :: "segment list \<Rightarrow> real" where
  "keptDuration segs =
     foldl (\<lambda>acc s. to_double (acc + to_double (end' s - start s))) 0 (filter keep segs)"

definition removedDuration :: "project_data \<Rightarrow> segment list \<Rightarrow> real" where
  "removedDuration projectData segs = to_double (totalDuration projectData - keptDuration segs)"

text \<open>The user's edits of the segment list, and a sequence of them applied in order.\<close>

datatype edit = Toggle int | ToggleRange real real

fun apply_edit :: "segment list \<Rightarrow> edit \<Rightarrow> segment list" where
  "apply_edit segs (Toggle index) = toggleSegment index segs"
| "apply_edit segs (ToggleRange startTime endTime) = toggleWordRange startTime endTime segs"

definition apply_edits :: "segment list \<Rightarrow> edit list \<Rightarrow> segment list" where
  "apply_edits segs es = foldl apply_edit segs es"

text \<open>The scenario of the specification: three segments covering ten seconds, all kept.\<close>

definition scenario_segments :: "segment list" where
  "scenario_segments =
     [\<lparr>start = 0, end' = 4, keep = True, is_silence = False, text' = None\<rparr>,
      \<lparr>start = 4, end' = 6, keep = True, is_silence = True, text' = None\<rparr>,
      \<lparr>start = 6, end' = 10, keep = True, is_silence = False, text' = None\<rparr>]"

definition scenario_project :: project_data where
  "scenario_project =
     \<lparr>duration = Some 10, segments = Some scenario_segments, transcript = Some []\<rparr>"

text \<open>
  A project of 236.77 seconds in two segments that meet at 40.33 seconds, as the JSON
  numbers \<^verbatim>\<open>40.33\<close> and \<^verbatim>\<open>236.77\<close> are read, both kept.
\<close>

definition rounding_segments :: "segment list" where
  "rounding_segments =
     [\<lparr>start = 0, end' = to_double 40.33, keep = True, is_silence = False, text' = None\<rparr>,
      \<lparr>start = to_double 40.33, end' = to_double 236.77, keep = True, is_silence = True,
       text' = None\<rparr>]"

definition rounding_project :: project_data where
  "rounding_project =
     \<lparr>duration = Some (to_double 236.77), segments = Some rounding_segments,
      transcript = Some []\<rparr>"

text \<open>
  The specification's reading of the test in \<^verbatim>\<open>toggleWordRange\<close>: the half-open interval
  \<open>[start, end)\<close> of the segment is a subset of the closed interval
  \<open>[rangeStart, rangeEnd]\<close>.
\<close>

definition fully_contained :: "segment \<Rightarrow> real \<Rightarrow> real \<Rightarrow> bool" where
  "fully_contained seg rangeStart rangeEnd \<longleftrightarrow>
     {start seg ..< end' seg} \<subseteq> {rangeStart .. rangeEnd}"

section \<open>Transcript (the Transcript component)\<close>

text \<open>
  \<^verbatim>\<open>removedRanges = segments.filter(s => !s.keep).map(s => ({ start: s.start, end: s.end }))\<close>
  and \<^verbatim>\<open>isWordRemoved(start, end) = removedRanges.some(range =>
  start >= range.start && end <= range.end)\<close>. The two numbers are the word's \<^verbatim>\<open>start\<close>
  and \<^verbatim>\<open>end\<close>.
\<close>

definition removedRanges :: "segment list \<Rightarrow> time_range list" where
  "removedRanges segs = map (\<lambda>s. \<lparr>start = start s, end' = end' s\<rparr>) (filter (\<lambda>s. \<not> keep s) segs)"

definition isWordRemoved :: "segment list \<Rightarrow> real \<Rightarrow> real \<Rightarrow> bool" where
  "isWordRemoved segs wstart wend =
     list_ex (\<lambda>r. wstart \<ge> start r \<and> wend \<le> end' r) (removedRanges segs)"

text \<open>
  The specification's words for the display rule: the word's \<open>[start, end)\<close> is fully
  enclosed by the removed ranges, that is, every instant of the word lies in the
  \<open>[start, end)\<close> of some segment with \<^verbatim>\<open>keep = false\<close>.
\<close>

definition removed_time :: "segment list \<Rightarrow> real set" where
  "removed_time segs = (\<Union>s \<in> set (filter (\<lambda>s. \<not> keep s) segs). {start s ..< end' s})"

definition fully_enclosed :: "segment list \<Rightarrow> real \<Rightarrow> real \<Rightarrow> bool" where
  "fully_enclosed segs wstart wend \<longleftrightarrow> {wstart ..< wend} \<subseteq> removed_time segs"

definition two_removed_segments :: "segment list" where
  "two_removed_segments =
     [\<lparr>start = 0, end' = 4, keep = False, is_silence = False, text' = None\<rparr>,
      \<lparr>start = 4, end' = 8, keep = False, is_silence = True, text' = None\<rparr>]"

section \<open>Playback position (EditorScreen.jsx and the Timeline component)\<close>

text \<open>
  The state of one mounted \<^verbatim>\<open>EditorScreen\<close>: its four \<^verbatim>\<open>useState\<close> cells and
  \<^verbatim>\<open>videoRef.current\<close>. The component's \<^verbatim>\<open>segments\<close> cell carries a prime, the name without
  one being the field of the analysis result. Of the media element only the value last
  assigned to its \<^verbatim>\<open>currentTime\<close> is kept.
\<close>

datatype tab = TimelineTab | TranscriptTab

record video =
  video_currentTime :: real

record editor_state =
  segments' :: "segment list"
  currentTime :: real
  isPlaying :: bool
  activeTab :: tab
  videoRef :: "video option"

text \<open>
  \<^verbatim>\<open>seekTo(time)\<close>: \<^verbatim>\<open>if (videoRef.current) { videoRef.current.currentTime = time;
  setCurrentTime(time) }\<close>.
\<close>

definition seekTo :: "real \<Rightarrow> editor_state \<Rightarrow> editor_state" where
  "seekTo time ed =
     (case videoRef ed of
        None \<Rightarrow> ed
      | Some v \<Rightarrow> ed\<lparr>videoRef := Some (v\<lparr>video_currentTime := time\<rparr>), currentTime := time\<rparr>)"

text \<open>
  \<^verbatim>\<open>handleTimelineClick\<close> of the timeline: nothing happens without the timeline element;
  otherwise \<^verbatim>\<open>x = e.clientX - rect.left + scrollLeft\<close>, \<^verbatim>\<open>time = x / pixelsPerSecond\<close> with
  \<^verbatim>\<open>pixelsPerSecond = 50 * scale\<close>, and \<^verbatim>\<open>onSeek(Math.max(0, Math.min(time, duration)))\<close>.
  The result is the argument handed to \<^verbatim>\<open>onSeek\<close>, if it is called. The zoom buttons keep
  \<^verbatim>\<open>scale\<close> between 0.5 and 3, so the divisor is positive in the program.
\<close>

record timeline_element =
  rect_left :: real
  scrollLeft :: real

definition pixelsPerSecond :: "real \<Rightarrow> real" where
  "pixelsPerSecond scale = to_double (50 * scale)"

definition click_time :: "timeline_element \<Rightarrow> real \<Rightarrow> real \<Rightarrow> real" where
  "click_time el scale clientX =
     (let x = to_double (to_double (clientX - rect_left el) + scrollLeft el)
      in to_double (x / pixelsPerSecond scale))"

definition handleTimelineClick ::
  "timeline_element option \<Rightarrow> real \<Rightarrow> real \<Rightarrow> real \<Rightarrow> real option" where
  "handleTimelineClick timelineRef scale dur clientX =
     (case timelineRef of
        None \<Rightarrow> None
      | Some el \<Rightarrow>
          (let time = click_time el scale clientX
           in Some (max 0 (min time dur))))"

text \<open>
  Everything that changes the state of a mounted editor. The segment edits and the reset
  replace the list. \<^verbatim>\<open>seekTo\<close> is called with \<^verbatim>\<open>word.start\<close> by a tap on a word, with
  \<^verbatim>\<open>segment.start\<close> by a tap on a row of the segment list, and with the clamped time by a
  click on the timeline, whose \<^verbatim>\<open>duration\<close> is \<^verbatim>\<open>totalDuration\<close>. \<^verbatim>\<open>togglePlayback\<close> acts only
  on a media element: \<^verbatim>\<open>if (videoRef.current) { ...; setIsPlaying(!isPlaying) }\<close>. The
  \<^verbatim>\<open>timeupdate\<close> listener, \<^verbatim>\<open>setCurrentTime(video.currentTime)\<close>, is installed only on a media
  element (\<^verbatim>\<open>if (!video) return\<close>); the event carries the element's clock.
\<close>

datatype editor_event =
  Edit edit
| ResetEdits
| SeekTo real
| TimelineClick "timeline_element option" real real
| TogglePlayback
| SetActiveTab tab
| TimeUpdate real

definition togglePlayback :: "editor_state \<Rightarrow> editor_state" where
  "togglePlayback ed =
     (case videoRef ed of None \<Rightarrow> ed | Some v \<Rightarrow> ed\<lparr>isPlaying := \<not> isPlaying ed\<rparr>)"

definition handleTimeUpdate :: "real \<Rightarrow> editor_state \<Rightarrow> editor_state" where
  "handleTimeUpdate clock ed =
     (case videoRef ed of
        None \<Rightarrow> ed
      | Some v \<Rightarrow> ed\<lparr>videoRef := Some (v\<lparr>video_currentTime := clock\<rparr>), currentTime := clock\<rparr>)"

fun editor_step :: "project_data \<Rightarrow> editor_state \<Rightarrow> editor_event \<Rightarrow> editor_state" where
  "editor_step pd ed (Edit e) = ed\<lparr>segments' := apply_edit (segments' ed) e\<rparr>"
| "editor_step pd ed ResetEdits = ed\<lparr>segments' := resetEdits pd (segments' ed)\<rparr>"
| "editor_step pd ed (SeekTo time) = seekTo time ed"
| "editor_step pd ed (TimelineClick timelineRef scale clientX) =
     (case handleTimelineClick timelineRef scale (totalDuration pd) clientX of
        None \<Rightarrow> ed
      | Some time \<Rightarrow> seekTo time ed)"
| "editor_step pd ed TogglePlayback = togglePlayback ed"
| "editor_step pd ed (SetActiveTab t) = ed\<lparr>activeTab := t\<rparr>"
| "editor_step pd ed (TimeUpdate clock) = handleTimeUpdate clock ed"

section \<open>Workflow (App.jsx)\<close>

text \<open>
  The three screens of \<^verbatim>\<open>App\<close>: \<^verbatim>\<open>'upload'\<close> (Idle), \<^verbatim>\<open>'processing'\<close> (Uploading, Analyzing
  and Exporting) and \<^verbatim>\<open>'editor'\<close> (Editing).
\<close>

datatype screen = Upload | Processing | Editor

text \<open>
  What a rejected collaborator call throws, as far as the handlers read it:
  \<^verbatim>\<open>err.response?.data?.detail\<close> and \<^verbatim>\<open>err.message\<close>. The message shown is
  \<^verbatim>\<open>err.response?.data?.detail || err.message || fallback\<close>; a missing value and the empty
  string are falsy.
\<close>

record js_error =
  response_detail :: "string option"
  message :: "string option"

definition js_or :: "string option \<Rightarrow> string option \<Rightarrow> string option" where
  "js_or a b = (case a of None \<Rightarrow> b | Some s \<Rightarrow> if s = [] then b else Some s)"

definition failure_message :: "js_error \<Rightarrow> string \<Rightarrow> string option" where
  "failure_message err fallback = js_or (response_detail err) (js_or (message err) (Some fallback))"

text \<open>
  The requests of \<^verbatim>\<open>api.js\<close> are parameters: each call either rejects with an error
  (\<open>Inl\<close>) or resolves with its result (\<open>Inr\<close>). Two values of the environment are
  parameters too: \<^verbatim>\<open>API_BASE\<close> (\<^verbatim>\<open>import.meta.env.VITE_API_URL || '/api'\<close>), and the
  \<^verbatim>\<open>TypeError\<close> that the engine throws when a method is called on \<^verbatim>\<open>undefined\<close>, whose
  message is the engine's own.
\<close>

type_synonym 'a outcome = "js_error + 'a"

record export_result =
  download_url :: "string option"

record api =
  API_BASE :: string
  call_on_undefined :: js_error
  uploadVideos :: "string list \<Rightarrow> string outcome"
  analyzeVideo :: "string \<Rightarrow> real \<Rightarrow> project_data outcome"
  updateSegments :: "string option \<Rightarrow> segment list \<Rightarrow> unit outcome"
  exportVideo :: "string option \<Rightarrow> export_result outcome"

text \<open>
  \<^verbatim>\<open>getDownloadUrl(downloadPath)\<close>: \<^verbatim>\<open>if (downloadPath.startsWith('http')) return
  downloadPath\<close>, otherwise \<^verbatim>\<open>API_BASE\<close> followed by the path. On a missing path the call of
  \<^verbatim>\<open>startsWith\<close> throws.
\<close>

definition getDownloadUrl :: "api \<Rightarrow> string option \<Rightarrow> string outcome" where
  "getDownloadUrl api downloadPath =
     (case downloadPath of
        None \<Rightarrow> Inl (call_on_undefined api)
      | Some path \<Rightarrow> if take 4 path = ''http'' then Inr path else Inr (API_BASE api @ path))"

record app_state =
  screen :: screen
  projectId :: "string option"
  projectData :: "project_data option"
  error :: "string option"

definition initial_app :: app_state where
  "initial_app = \<lparr>screen = Upload, projectId = None, projectData = None, error = None\<rparr>"

text \<open>
  \<^verbatim>\<open>handleUpload(files, silenceThreshold)\<close>, from its first statement to the state in which
  the promise settles. The \<^verbatim>\<open>catch\<close> block receives the rejection of either call.
\<close>

definition handleUpload :: "api \<Rightarrow> string list \<Rightarrow> real \<Rightarrow> app_state \<Rightarrow> app_state" where
  "handleUpload api files silenceThreshold a =
     (let a1 = a\<lparr>error := None, screen := Processing\<rparr> in
      case uploadVideos api files of
        Inl err \<Rightarrow> a1\<lparr>error := failure_message err ''Upload failed'', screen := Upload\<rparr>
      | Inr project_id \<Rightarrow>
          (let a2 = a1\<lparr>projectId := Some project_id\<rparr> in
           case analyzeVideo api project_id silenceThreshold of
             Inl err \<Rightarrow> a2\<lparr>error := failure_message err ''Upload failed'', screen := Upload\<rparr>
           | Inr analyzeResult \<Rightarrow> a2\<lparr>projectData := Some analyzeResult, screen := Editor\<rparr>))"

text \<open>\<^verbatim>\<open>handleSubmit\<close> of the upload screen: \<^verbatim>\<open>if (files.length > 0) onUpload(...)\<close>.\<close>

definition handleSubmit :: "api \<Rightarrow> string list \<Rightarrow> real \<Rightarrow> app_state \<Rightarrow> app_state" where
  "handleSubmit api files silenceThreshold a =
     (if length files > 0 then handleUpload api files silenceThreshold a else a)"

text \<open>
  \<^verbatim>\<open>handleExport(segments)\<close> in its three parts: the statements before the first
  \<^verbatim>\<open>await\<close>; the rest of the \<^verbatim>\<open>try\<close> with its \<^verbatim>\<open>catch\<close>, run when the requests have
  settled; and the timer's callback two seconds later. After a successful export
  \<^verbatim>\<open>api.getDownloadUrl(result.download_url)\<close> is evaluated inside the \<^verbatim>\<open>try\<close>; when it
  returns, the download is opened and the timer started, which leaves the state as it is.
\<close>

definition handleExport_begin :: "app_state \<Rightarrow> app_state" where
  "handleExport_begin a = a\<lparr>error := None, screen := Processing\<rparr>"

definition handleExport_settle :: "api \<Rightarrow> segment list \<Rightarrow> app_state \<Rightarrow> app_state" where
  "handleExport_settle api segs a =
     (case updateSegments api (projectId a) segs of
        Inl err \<Rightarrow> a\<lparr>error := failure_message err ''Export failed'', screen := Editor\<rparr>
      | Inr _ \<Rightarrow>
          (case exportVideo api (projectId a) of
             Inl err \<Rightarrow> a\<lparr>error := failure_message err ''Export failed'', screen := Editor\<rparr>
           | Inr result \<Rightarrow>
               (case getDownloadUrl api (download_url result) of
                  Inl err \<Rightarrow> a\<lparr>error := failure_message err ''Export failed'', screen := Editor\<rparr>
                | Inr downloadUrl \<Rightarrow> a)))"

definition handleExport_timer :: "app_state \<Rightarrow> app_state" where
  "handleExport_timer a = a\<lparr>screen := Upload, projectId := None, projectData := None\<rparr>"

text \<open>\<^verbatim>\<open>handleReset\<close>; the deletion request is sent and its outcome ignored.\<close>

definition handleReset :: "app_state \<Rightarrow> app_state" where
  "handleReset a = a\<lparr>screen := Upload, projectId := None, projectData := None, error := None\<rparr>"

text \<open>
  What is on screen: the state of \<^verbatim>\<open>App\<close> and, while it is mounted, the state of the
  \<^verbatim>\<open>EditorScreen\<close>. \<^verbatim>\<open>App\<close> renders \<^verbatim>\<open>screen === 'editor' && projectData && <EditorScreen
  projectData={projectData} ... />\<close>. React keeps the state of a component only while it stays
  rendered: when the condition is false the editor is removed together with its state, and
  when it is true again a new editor is created, whose cells start from their initial
  values (\<^verbatim>\<open>useState(projectData.segments || [])\<close>, \<^verbatim>\<open>useState(0)\<close>, \<^verbatim>\<open>useState(false)\<close>,
  \<^verbatim>\<open>useState('timeline')\<close>, \<^verbatim>\<open>useRef(null)\<close>).
\<close>

record ui =
  app :: app_state
  editor :: "editor_state option"

definition mount_editor :: "project_data \<Rightarrow> editor_state" where
  "mount_editor pd =
     \<lparr>segments' = initial_segments pd, currentTime = 0, isPlaying = False,
      activeTab = TimelineTab, videoRef = None\<rparr>"

text \<open>The editor after a sequence of events, from the state it is mounted in.\<close>

definition run_editor :: "project_data \<Rightarrow> editor_event list \<Rightarrow> editor_state" where
  "run_editor pd evs = foldl (editor_step pd) (mount_editor pd) evs"

definition render :: "ui \<Rightarrow> ui" where
  "render u =
     (case projectData (app u) of
        Some pd \<Rightarrow>
          (if screen (app u) = Editor
           then (case editor u of None \<Rightarrow> u\<lparr>editor := Some (mount_editor pd)\<rparr> | Some ed \<Rightarrow> u)
           else u\<lparr>editor := None\<rparr>)
      | None \<Rightarrow> u\<lparr>editor := None\<rparr>)"

text \<open>An edit made in the mounted editor (\<^verbatim>\<open>setSegments\<close>).\<close>

definition edit_ui :: "edit \<Rightarrow> ui \<Rightarrow> ui" where
  "edit_ui e u =
     (case editor u of
        None \<Rightarrow> u
      | Some ed \<Rightarrow> u\<lparr>editor := Some (ed\<lparr>segments' := apply_edit (segments' ed) e\<rparr>)\<rparr>)"

text \<open>
  The export button: the editor's \<^verbatim>\<open>handleExport\<close> calls \<^verbatim>\<open>onExport(segments)\<close> with its
  current list; \<^verbatim>\<open>App\<close> is rendered after the statements before the first \<^verbatim>\<open>await\<close>, and
  again when the requests have settled.
\<close>

definition export_clicked :: "api \<Rightarrow> ui \<Rightarrow> ui" where
  "export_clicked api u =
     (case editor u of
        None \<Rightarrow> u
      | Some ed \<Rightarrow>
          (let u1 = render (u\<lparr>app := handleExport_begin (app u)\<rparr>)
           in render (u1\<lparr>app := handleExport_settle api (segments' ed) (app u1)\<rparr>)))"

text \<open>The upload form submitted from the upload screen, and the page rendered afterwards.\<close>

definition submit_clicked :: "api \<Rightarrow> string list \<Rightarrow> real \<Rightarrow> ui \<Rightarrow> ui" where
  "submit_clicked api files silenceThreshold u =
     render (u\<lparr>app := handleSubmit api files silenceThreshold (app u)\<rparr>)"

definition initial_ui :: ui where
  "initial_ui = \<lparr>app = initial_app, editor = None\<rparr>"

text \<open>Collaborators for the examples: a transport error, and three servers.\<close>

definition network_error :: js_error where
  "network_error = \<lparr>response_detail = None, message = Some ''Network Error''\<rparr>"

definition api_ok :: api where
  "api_ok =
     \<lparr>API_BASE = ''/api'',
      call_on_undefined =
        \<lparr>response_detail = None,
         message = Some ''Cannot read properties of undefined (reading 'startsWith')''\<rparr>,
      uploadVideos = (\<lambda>files. Inr ''p1''),
      analyzeVideo = (\<lambda>project_id threshold. Inr scenario_project),
      updateSegments = (\<lambda>project_id segs. Inr ()),
      exportVideo = (\<lambda>project_id. Inr \<lparr>download_url = Some ''/download/p1''\<rparr>)\<rparr>"

definition api_export_fails :: api where
  "api_export_fails = api_ok\<lparr>exportVideo := (\<lambda>project_id. Inl network_error)\<rparr>"

definition api_analyze_fails :: api where
  "api_analyze_fails = api_ok\<lparr>analyzeVideo := (\<lambda>project_id threshold. Inl network_error)\<rparr>"

section \<open>Rounding to binary64\<close>

lemma round_half_even_error: "\<bar>of_int (round_half_even y) - y\<bar> \<le> 1 / 2"
  unfolding round_half_even_def Let_def by (auto; linarith)

lemma round_half_even_of_int [simp]: "round_half_even (of_int n) = n"
  by (simp add: round_half_even_def)

lemma to_double_error: "\<bar>to_double x - x\<bar> \<le> 2 powr of_int (binary64_exponent x) / 2"
proof (cases "x = 0")
  case True
  then show ?thesis by (simp add: to_double_def)
next
  case False
  define q :: real where "q = 2 powr of_int (binary64_exponent x)"
  have q: "0 < q" by (simp add: q_def)
  have "to_double x = of_int (round_half_even (x / q)) * q"
    using False by (simp add: to_double_def q_def)
  then have "to_double x - x = (of_int (round_half_even (x / q)) - x / q) * q"
    using q by (simp add: left_diff_distrib)
  then have "\<bar>to_double x - x\<bar> = \<bar>of_int (round_half_even (x / q)) - x / q\<bar> * q"
    using q by (simp add: abs_mult)
  also have "\<dots> \<le> 1 / 2 * q"
    using round_half_even_error [of "x / q"] q by (intro mult_right_mono) simp_all
  finally show ?thesis by (simp add: q_def)
qed

text \<open>
  A number whose magnitude, scaled by \<open>2\<^sup>k\<close>, lies between \<open>2\<^sup>5\<^sup>2\<close> and \<open>2\<^sup>5\<^sup>3\<close> is rounded
  to a multiple of \<open>2\<^sup>-\<^sup>k\<close>.
\<close>

lemma binary64_exponent_binade:
  assumes "2 ^ 52 \<le> \<bar>x\<bar> * 2 ^ k" and "\<bar>x\<bar> * 2 ^ k < 2 ^ 53" and "k \<le> 1074"
  shows "binary64_exponent x = - int k"
proof -
  have pos: "0 < \<bar>x\<bar>" using assms(1) by (cases "x = 0") simp_all
  have "\<lfloor>log 2 \<bar>x\<bar>\<rfloor> = 52 - int k"
  proof (rule floor_unique)
    have "log 2 (\<bar>x\<bar> * 2 ^ k) = log 2 \<bar>x\<bar> + real k"
      using pos by (simp add: log_mult log_nat_power)
    moreover have "52 \<le> log 2 (\<bar>x\<bar> * 2 ^ k)"
      using assms(1) pos by (simp add: le_log_iff powr_realpow [symmetric])
    moreover have "log 2 (\<bar>x\<bar> * 2 ^ k) < 53"
      using assms(2) pos by (simp add: log_less_iff powr_realpow [symmetric])
    ultimately show "of_int (52 - int k) \<le> log 2 \<bar>x\<bar>" "log 2 \<bar>x\<bar> < of_int (52 - int k) + 1"
      by simp_all
  qed
  with assms(3) show ?thesis by (simp add: binary64_exponent_def)
qed

lemma to_double_binade:
  assumes "2 ^ 52 \<le> \<bar>x\<bar> * 2 ^ k" and "\<bar>x\<bar> * 2 ^ k < 2 ^ 53" and "k \<le> 1074"
  shows "to_double x = of_int (round_half_even (x * 2 ^ k)) / 2 ^ k"
proof -
  have e: "binary64_exponent x = - int k" using assms by (rule binary64_exponent_binade)
  have p: "2 powr (- real k) = 1 / (2 ^ k :: real)"
    by (simp add: powr_minus powr_realpow divide_inverse)
  have "x \<noteq> 0" using assms(1) by auto
  then show ?thesis by (simp add: to_double_def e p)
qed

text \<open>Integers of magnitude below \<open>2\<^sup>5\<^sup>3\<close> are binary64 values.\<close>

lemma to_double_of_int:
  assumes "\<bar>n\<bar> < 2 ^ 53"
  shows "to_double (of_int n) = of_int n"
proof (cases "n = 0")
  case True
  then show ?thesis by (simp add: to_double_def)
next
  case False
  define j where "j = \<lfloor>log 2 \<bar>real_of_int n\<bar>\<rfloor>"
  have n1: "1 \<le> \<bar>real_of_int n\<bar>" using False by (simp flip: of_int_abs)
  have n2: "\<bar>real_of_int n\<bar> < 2 ^ 53" using assms by (simp flip: of_int_abs)
  have "0 \<le> log 2 \<bar>real_of_int n\<bar>" using n1 by simp
  then have j0: "0 \<le> j" by (simp add: j_def)
  have "log 2 \<bar>real_of_int n\<bar> < 53"
    using n1 n2 by (simp add: log_less_iff powr_realpow [symmetric])
  then have j52: "j \<le> 52" by (simp add: j_def floor_le_iff)
  define k where "k = nat (52 - j)"
  have e: "binary64_exponent (of_int n) = - int k"
    using j0 j52 by (simp add: binary64_exponent_def j_def [symmetric] k_def)
  have p: "2 powr (- real k) = 1 / (2 ^ k :: real)"
    by (simp add: powr_minus powr_realpow divide_inverse)
  have "real_of_int n * 2 ^ k = of_int (n * 2 ^ k)" by simp
  then have "round_half_even (real_of_int n * 2 ^ k) = n * 2 ^ k"
    by (simp only: round_half_even_of_int)
  then show ?thesis using False by (simp add: to_double_def e p)
qed

lemma to_double_numeral [simp]:
  "(numeral n :: int) < 2 ^ 53 \<Longrightarrow> to_double (numeral n) = numeral n"
  using to_double_of_int [of "numeral n"] by simp

lemma to_double_neg_numeral [simp]:
  "(numeral n :: int) < 2 ^ 53 \<Longrightarrow> to_double (- numeral n) = - numeral n"
  using to_double_of_int [of "- numeral n"] by simp

lemma to_double_0 [simp]: "to_double 0 = 0"
  by (simp add: to_double_def)

lemma to_double_1 [simp]: "to_double 1 = 1"
  using to_double_of_int [of 1] by simp

lemma to_double_minus_1 [simp]: "to_double (- 1) = - 1"
  using to_double_of_int [of "- 1"] by simp

section \<open>Toggling one segment\<close>

lemma length_toggleSegment: "length (toggleSegment index segs) = length segs"
  by (simp add: toggleSegment_def)

lemma nth_toggleSegment:
  "i < length segs \<Longrightarrow>
   toggleSegment index segs ! i = (if int i = index then flip_keep (segs ! i) else segs ! i)"
  by (simp add: toggleSegment_def nth_enumerate_eq)

lemma toggleSegment_in_range:
  assumes "0 \<le> index" and "index < int (length segs)"
  shows "toggleSegment index segs = segs[nat index := flip_keep (segs ! nat index)]"
proof (rule nth_equalityI)
  show "length (toggleSegment index segs) = length (segs[nat index := flip_keep (segs ! nat index)])"
    by (simp add: length_toggleSegment)
next
  fix i assume "i < length (toggleSegment index segs)"
  then have i: "i < length segs" by (simp add: length_toggleSegment)
  show "toggleSegment index segs ! i = segs[nat index := flip_keep (segs ! nat index)] ! i"
  proof (cases "int i = index")
    case True
    then have "nat index = i" by simp
    with i True show ?thesis by (simp add: nth_toggleSegment)
  next
    case False
    then have "nat index \<noteq> i" using assms(1) by auto
    with i False show ?thesis by (simp add: nth_toggleSegment)
  qed
qed

lemma toggleSegment_out_of_range:
  assumes "index < 0 \<or> int (length segs) \<le> index"
  shows "toggleSegment index segs = segs"
proof (rule nth_equalityI)
  show "length (toggleSegment index segs) = length segs"
    by (rule length_toggleSegment)
next
  fix i assume "i < length (toggleSegment index segs)"
  then have i: "i < length segs" by (simp add: length_toggleSegment)
  with assms have "int i \<noteq> index" by auto
  with i show "toggleSegment index segs ! i = segs ! i" by (simp add: nth_toggleSegment)
qed

text \<open>
  C9. \<^verbatim>\<open>toggle(i)\<close> negates \<^verbatim>\<open>keep\<close> of the segment at position \<open>i\<close> (and changes no other
  segment) when \<open>i\<close> is a position of the list; when \<open>i\<close> is out of range the list comes back
  unchanged. The function is total: no error is raised in either case.
\<close>

theorem toggleSegment_flips_or_ignores:
  "(0 \<le> index \<and> index < int (length segs) \<longrightarrow>
      toggleSegment index segs = segs[nat index := (segs ! nat index)\<lparr>keep := \<not> keep (segs ! nat index)\<rparr>])
   \<and> (\<not> (0 \<le> index \<and> index < int (length segs)) \<longrightarrow> toggleSegment index segs = segs)"
proof (intro conjI impI)
  assume "0 \<le> index \<and> index < int (length segs)"
  then show "toggleSegment index segs =
      segs[nat index := (segs ! nat index)\<lparr>keep := \<not> keep (segs ! nat index)\<rparr>]"
    using toggleSegment_in_range [of index segs] by (simp add: flip_keep_def)
next
  assume "\<not> (0 \<le> index \<and> index < int (length segs))"
  then have "index < 0 \<or> int (length segs) \<le> index" by linarith
  then show "toggleSegment index segs = segs" by (rule toggleSegment_out_of_range)
qed

text \<open>
  The witness: in the scenario, position 1 is in range and its segment is flipped;
  positions 3 and \<open>-1\<close> are out of range and the list comes back as it was.
\<close>

theorem toggleSegment_flips_or_ignores_witness:
  "toggleSegment 1 scenario_segments =
     [\<lparr>start = 0, end' = 4, keep = True, is_silence = False, text' = None\<rparr>,
      \<lparr>start = 4, end' = 6, keep = False, is_silence = True, text' = None\<rparr>,
      \<lparr>start = 6, end' = 10, keep = True, is_silence = False, text' = None\<rparr>]
   \<and> toggleSegment 3 scenario_segments = scenario_segments
   \<and> toggleSegment (- 1) scenario_segments = scenario_segments"
  using toggleSegment_flips_or_ignores [of 1 scenario_segments]
    toggleSegment_flips_or_ignores [of 3 scenario_segments]
    toggleSegment_flips_or_ignores [of "- 1" scenario_segments]
  by (simp add: scenario_segments_def)

section \<open>Toggling a time range\<close>

lemma fully_contained_iff:
  "start seg < end' seg \<Longrightarrow>
   fully_contained seg a b \<longleftrightarrow> start seg \<ge> a \<and> end' seg \<le> b"
  by (simp add: fully_contained_def atLeastLessThan_subseteq_atLeastAtMost_iff)

lemma length_toggleWordRange: "length (toggleWordRange a b segs) = length segs"
  by (simp add: toggleWordRange_def)

lemma nth_toggleWordRange:
  "i < length segs \<Longrightarrow>
   toggleWordRange a b segs ! i =
     (if start (segs ! i) \<ge> a \<and> end' (segs ! i) \<le> b then flip_keep (segs ! i) else segs ! i)"
  by (simp add: toggleWordRange_def)

text \<open>
  C5. \<^verbatim>\<open>toggleRange(rangeStart, rangeEnd)\<close> keeps the length of the list and, at every
  position, negates \<^verbatim>\<open>keep\<close> of the segment when \<open>rangeStart \<le> start\<close> and
  \<open>end \<le> rangeEnd\<close>, and returns the segment untouched otherwise. For a segment of the data
  model (\<open>start < end\<close>) that test is exactly "\<open>[start, end)\<close> is fully contained in
  \<open>[rangeStart, rangeEnd]\<close>", so a segment that only partially overlaps the range is left as
  it was.
\<close>

theorem toggleWordRange_flips_exactly_contained:
  "length (toggleWordRange a b segs) = length segs
   \<and> (\<forall>i < length segs.
        toggleWordRange a b segs ! i =
          (if a \<le> start (segs ! i) \<and> end' (segs ! i) \<le> b
           then (segs ! i)\<lparr>keep := \<not> keep (segs ! i)\<rparr> else segs ! i))
   \<and> (\<forall>i < length segs. start (segs ! i) < end' (segs ! i) \<longrightarrow>
        toggleWordRange a b segs ! i =
          (if fully_contained (segs ! i) a b
           then (segs ! i)\<lparr>keep := \<not> keep (segs ! i)\<rparr> else segs ! i))"
proof (intro conjI allI impI)
  show "length (toggleWordRange a b segs) = length segs"
    by (rule length_toggleWordRange)
next
  fix i assume "i < length segs"
  then show "toggleWordRange a b segs ! i =
      (if a \<le> start (segs ! i) \<and> end' (segs ! i) \<le> b
       then (segs ! i)\<lparr>keep := \<not> keep (segs ! i)\<rparr> else segs ! i)"
    by (simp add: nth_toggleWordRange flip_keep_def)
next
  fix i assume i: "i < length segs" and wf: "start (segs ! i) < end' (segs ! i)"
  from wf have "fully_contained (segs ! i) a b \<longleftrightarrow> a \<le> start (segs ! i) \<and> end' (segs ! i) \<le> b"
    by (rule fully_contained_iff)
  with i show "toggleWordRange a b segs ! i =
      (if fully_contained (segs ! i) a b
       then (segs ! i)\<lparr>keep := \<not> keep (segs ! i)\<rparr> else segs ! i)"
    by (simp add: nth_toggleWordRange flip_keep_def)
qed

text \<open>
  The witness: the range \<open>[3, 6]\<close> contains the middle segment \<open>[4, 6)\<close> of the scenario and
  only overlaps the first one, \<open>[0, 4)\<close>; the last one is outside.
\<close>

theorem toggleWordRange_flips_exactly_contained_witness:
  "toggleWordRange 3 6 scenario_segments ! 0 = scenario_segments ! 0
   \<and> \<not> fully_contained (scenario_segments ! 0) 3 6
   \<and> toggleWordRange 3 6 scenario_segments ! 1 = (scenario_segments ! 1)\<lparr>keep := False\<rparr>
   \<and> fully_contained (scenario_segments ! 1) 3 6
   \<and> toggleWordRange 3 6 scenario_segments ! 2 = scenario_segments ! 2
   \<and> length (toggleWordRange 3 6 scenario_segments) = 3"
  using toggleWordRange_flips_exactly_contained [of 3 6 scenario_segments]
  by (simp add: scenario_segments_def fully_contained_def
      atLeastLessThan_subseteq_atLeastAtMost_iff)

text \<open>
  C10. When every segment has \<open>start < end\<close>, a range with \<open>rangeEnd \<le> rangeStart\<close> contains
  no segment, and \<^verbatim>\<open>toggleRange\<close> returns the list unchanged.
\<close>

theorem toggleWordRange_empty_range:
  assumes "\<forall>seg \<in> set segs. start seg < end' seg" and "b \<le> a"
  shows "toggleWordRange a b segs = segs"
proof -
  have "(if start seg \<ge> a \<and> end' seg \<le> b then flip_keep seg else seg) = seg"
    if "seg \<in> set segs" for seg
  proof -
    from that assms(1) have "start seg < end' seg" by blast
    with assms(2) have "\<not> (start seg \<ge> a \<and> end' seg \<le> b)" by linarith
    then show ?thesis by (simp only: if_False)
  qed
  then show ?thesis
    unfolding toggleWordRange_def by (simp add: map_idI)
qed

text \<open>
  The witness: the segments of the scenario all have \<open>start < end\<close>; the inverted range
  from 6 to 4 and the empty range from 5 to 5 change none of them.
\<close>

theorem toggleWordRange_empty_range_witness:
  "list_all (\<lambda>seg. start seg < end' seg) scenario_segments \<and> (4::real) \<le> 6 \<and> (5::real) \<le> 5
   \<and> toggleWordRange 6 4 scenario_segments = scenario_segments
   \<and> toggleWordRange 5 5 scenario_segments = scenario_segments"
proof -
  have wf: "\<forall>seg \<in> set scenario_segments. start seg < end' seg"
    by (simp add: scenario_segments_def)
  have "list_all (\<lambda>seg. start seg < end' seg) scenario_segments"
    by (simp add: scenario_segments_def)
  then show ?thesis
    using toggleWordRange_empty_range [OF wf, of 4 6]
      toggleWordRange_empty_range [OF wf, of 5 5]
    by simp
qed

section \<open>What an edit leaves alone\<close>

lemma flip_keep_fields [simp]:
  "start (flip_keep seg) = start seg" "end' (flip_keep seg) = end' seg"
  "is_silence (flip_keep seg) = is_silence seg" "text' (flip_keep seg) = text' seg"
  "flip_keep seg\<lparr>keep := k\<rparr> = seg\<lparr>keep := k\<rparr>"
  by (simp_all add: flip_keep_def)

lemma apply_edit_length: "length (apply_edit segs e) = length segs"
  by (cases e) (simp_all add: length_toggleSegment length_toggleWordRange)

lemma apply_edit_nth:
  "i < length segs \<Longrightarrow> apply_edit segs e ! i = segs ! i \<or> apply_edit segs e ! i = flip_keep (segs ! i)"
  by (cases e) (simp_all add: nth_toggleSegment nth_toggleWordRange)

lemma apply_edit_frame:
  "map (\<lambda>seg. seg\<lparr>keep := k\<rparr>) (apply_edit segs e) = map (\<lambda>seg. seg\<lparr>keep := k\<rparr>) segs"
proof (rule nth_equalityI)
  show "length (map (\<lambda>seg. seg\<lparr>keep := k\<rparr>) (apply_edit segs e)) =
      length (map (\<lambda>seg. seg\<lparr>keep := k\<rparr>) segs)"
    by (simp add: apply_edit_length)
next
  fix i assume "i < length (map (\<lambda>seg. seg\<lparr>keep := k\<rparr>) (apply_edit segs e))"
  then have i: "i < length segs" by (simp add: apply_edit_length)
  then have "(apply_edit segs e ! i)\<lparr>keep := k\<rparr> = (segs ! i)\<lparr>keep := k\<rparr>"
    using apply_edit_nth [OF i, of e] by auto
  with i show "map (\<lambda>seg. seg\<lparr>keep := k\<rparr>) (apply_edit segs e) ! i =
      map (\<lambda>seg. seg\<lparr>keep := k\<rparr>) segs ! i"
    by (simp add: apply_edit_length)
qed

lemma apply_edits_frame:
  "map (\<lambda>seg. seg\<lparr>keep := k\<rparr>) (apply_edits segs es) = map (\<lambda>seg. seg\<lparr>keep := k\<rparr>) segs"
  unfolding apply_edits_def
  by (induction es arbitrary: segs) (simp_all add: apply_edit_frame)

lemma frame_field:
  assumes "map (\<lambda>seg. seg\<lparr>keep := True\<rparr>) xs = map (\<lambda>seg. seg\<lparr>keep := True\<rparr>) ys"
    and "\<And>seg. f (seg\<lparr>keep := True\<rparr>) = f seg"
  shows "map f xs = map f (ys :: segment list)"
proof -
  have "map f xs = map f (map (\<lambda>seg. seg\<lparr>keep := True\<rparr>) xs)"
    by (simp add: assms(2) comp_def)
  also have "\<dots> = map f (map (\<lambda>seg. seg\<lparr>keep := True\<rparr>) ys)"
    by (simp only: assms(1))
  also have "\<dots> = map f ys"
    by (simp add: assms(2) comp_def)
  finally show ?thesis .
qed

text \<open>
  C8. A toggle or a range toggle changes nothing but \<^verbatim>\<open>keep\<close>: the list has the same
  number of segments, and the lists of the \<^verbatim>\<open>start\<close>, \<^verbatim>\<open>end\<close>, \<^verbatim>\<open>is_silence\<close> and
  \<^verbatim>\<open>text\<close> fields, read in order, are the same before and after; so are the whole segments
  once \<^verbatim>\<open>keep\<close> is blanked out.
\<close>

theorem edit_changes_only_keep:
  "length (apply_edit segs e) = length segs
   \<and> map start (apply_edit segs e) = map start segs
   \<and> map end' (apply_edit segs e) = map end' segs
   \<and> map is_silence (apply_edit segs e) = map is_silence segs
   \<and> map text' (apply_edit segs e) = map text' segs
   \<and> map (\<lambda>seg. seg\<lparr>keep := True\<rparr>) (apply_edit segs e) = map (\<lambda>seg. seg\<lparr>keep := True\<rparr>) segs"
proof -
  note fr = apply_edit_frame [of True segs e]
  have "map start (apply_edit segs e) = map start segs"
    by (rule frame_field [OF fr]) simp
  moreover have "map end' (apply_edit segs e) = map end' segs"
    by (rule frame_field [OF fr]) simp
  moreover have "map is_silence (apply_edit segs e) = map is_silence segs"
    by (rule frame_field [OF fr]) simp
  moreover have "map text' (apply_edit segs e) = map text' segs"
    by (rule frame_field [OF fr]) simp
  ultimately show ?thesis
    using fr by (simp add: apply_edit_length)
qed

section \<open>Reset\<close>

lemma restore_keep:
  assumes "map (\<lambda>seg. seg\<lparr>keep := True\<rparr>) edited = map (\<lambda>seg. seg\<lparr>keep := True\<rparr>) orig"
  shows "map2 (\<lambda>seg k. seg\<lparr>keep := k\<rparr>) edited (map keep orig) = (orig :: segment list)"
proof (rule nth_equalityI)
  from assms have len: "length edited = length orig"
    by (rule map_eq_imp_length_eq)
  then show "length (map2 (\<lambda>seg k. seg\<lparr>keep := k\<rparr>) edited (map keep orig)) = length orig"
    by simp
  fix i assume "i < length (map2 (\<lambda>seg k. seg\<lparr>keep := k\<rparr>) edited (map keep orig))"
  with len have i: "i < length orig" "i < length edited" by simp_all
  from assms have "map (\<lambda>seg. seg\<lparr>keep := True\<rparr>) edited ! i = map (\<lambda>seg. seg\<lparr>keep := True\<rparr>) orig ! i"
    by simp
  with i have "(edited ! i)\<lparr>keep := True\<rparr> = (orig ! i)\<lparr>keep := True\<rparr>" by simp
  then have "(edited ! i)\<lparr>keep := True\<rparr>\<lparr>keep := keep (orig ! i)\<rparr> =
      (orig ! i)\<lparr>keep := True\<rparr>\<lparr>keep := keep (orig ! i)\<rparr>"
    by (rule arg_cong)
  then have "(edited ! i)\<lparr>keep := keep (orig ! i)\<rparr> = orig ! i" by simp
  with i show "map2 (\<lambda>seg k. seg\<lparr>keep := k\<rparr>) edited (map keep orig) ! i = orig ! i"
    by simp
qed

lemma run_edits_segments:
  "segments' (foldl (editor_step pd) ed (map Edit es)) = apply_edits (segments' ed) es"
  unfolding apply_edits_def by (induction es arbitrary: ed) simp_all

text \<open>
  C7. Let the analysis result carry the segment list \<open>segs\<close>. The editor is mounted with
  that list, and after any finite sequence of toggles and range toggles \<^verbatim>\<open>reset()\<close> gives
  back exactly \<open>segs\<close>: every \<^verbatim>\<open>keep\<close> flag has the value it has in the analysis result, and
  the result is the edited list with only its \<^verbatim>\<open>keep\<close> flags put back. \<^verbatim>\<open>resetEdits\<close> reads
  nothing but the \<^verbatim>\<open>projectData\<close> the editor already holds: no collaborator is among its
  arguments.
\<close>

theorem resetEdits_restores_original_keep:
  assumes "segments pd = Some segs"
  shows "segments' (mount_editor pd) = segs
   \<and> resetEdits pd (apply_edits segs es) = segs
   \<and> map keep (resetEdits pd (apply_edits segs es)) = map keep segs
   \<and> resetEdits pd (apply_edits segs es) =
       map2 (\<lambda>seg k. seg\<lparr>keep := k\<rparr>) (apply_edits segs es) (map keep segs)
   \<and> segments' (run_editor pd (map Edit es @ [ResetEdits])) = segs"
proof -
  have init: "initial_segments pd = segs"
    using assms by (simp add: initial_segments_def)
  have reset: "resetEdits pd prev = segs" for prev
    by (simp add: resetEdits_def init)
  have "segments' (run_editor pd (map Edit es @ [ResetEdits])) =
      resetEdits pd (segments' (foldl (editor_step pd) (mount_editor pd) (map Edit es)))"
    by (simp add: run_editor_def)
  then have run: "segments' (run_editor pd (map Edit es @ [ResetEdits])) = segs"
    by (simp only: reset)
  show ?thesis
    using restore_keep [OF apply_edits_frame [of True segs es]] run
    by (simp add: reset mount_editor_def init)
qed

text \<open>
  The witness: in the scenario, \<^verbatim>\<open>toggle(1)\<close> and then \<^verbatim>\<open>toggleRange(0, 4)\<close> leave only the
  last segment kept; the reset brings back the three kept segments of the analysis result.
\<close>

theorem resetEdits_restores_original_keep_witness:
  "segments scenario_project = Some scenario_segments
   \<and> map keep (apply_edits scenario_segments [Toggle 1, ToggleRange 0 4]) = [False, False, True]
   \<and> resetEdits scenario_project (apply_edits scenario_segments [Toggle 1, ToggleRange 0 4]) =
       scenario_segments
   \<and> map keep (resetEdits scenario_project (apply_edits scenario_segments [Toggle 1, ToggleRange 0 4])) =
       [True, True, True]
   \<and> segments' (run_editor scenario_project
         (map Edit [Toggle 1, ToggleRange 0 4] @ [ResetEdits])) = scenario_segments"
proof -
  have s: "segments scenario_project = Some scenario_segments"
    by (simp add: scenario_project_def)
  have e: "map keep (apply_edits scenario_segments [Toggle 1, ToggleRange 0 4]) = [False, False, True]"
    by (simp add: apply_edits_def toggleSegment_def toggleWordRange_def scenario_segments_def
        flip_keep_def enumerate_eq_zip upt_rec)
  have k: "map keep scenario_segments = [True, True, True]"
    by (simp add: scenario_segments_def)
  show ?thesis
    using s e k resetEdits_restores_original_keep [OF s, of "[Toggle 1, ToggleRange 0 4]"]
    by simp
qed

section \<open>Statistics\<close>

lemma keptDuration_snoc:
  "keptDuration (segs @ [s]) =
     (if keep s then to_double (keptDuration segs + to_double (end' s - start s))
      else keptDuration segs)"
  by (simp add: keptDuration_def)

lemma totalDuration_Some: "totalDuration (pd\<lparr>duration := Some d\<rparr>) = d"
  by (simp add: totalDuration_def)

text \<open>
  C6, as the code has it. For every segment list (so also for the list after each toggle,
  range toggle or reset, from which the statistics are recomputed) and every project:
  \<^verbatim>\<open>keptDuration\<close> is the sum of \<open>end - start\<close> over the kept segments taken from left to
  right in binary64 arithmetic, every difference and every partial sum rounded;
  \<^verbatim>\<open>removedDuration\<close> is the total duration minus \<^verbatim>\<open>keptDuration\<close>, rounded; the total
  duration of a project with duration \<open>d\<close> is \<open>d\<close>. The two statistics add up to the total
  duration but for the rounding of that one subtraction: their exact sum is within half a
  unit in the last place of \<open>duration - keptDuration\<close>, and it is the total duration
  whenever \<open>duration - keptDuration\<close> is itself a binary64 value.
\<close>

theorem stats_partition_up_to_rounding:
  "keptDuration [] = 0
   \<and> keptDuration (segs @ [s]) =
       (if keep s then to_double (keptDuration segs + to_double (end' s - start s))
        else keptDuration segs)
   \<and> removedDuration pd segs = to_double (totalDuration pd - keptDuration segs)
   \<and> totalDuration (pd\<lparr>duration := Some d\<rparr>) = d
   \<and> \<bar>keptDuration segs + removedDuration pd segs - totalDuration pd\<bar>
       \<le> 2 powr of_int (binary64_exponent (totalDuration pd - keptDuration segs)) / 2
   \<and> (to_double (totalDuration pd - keptDuration segs) = totalDuration pd - keptDuration segs
       \<longrightarrow> keptDuration segs + removedDuration pd segs = totalDuration pd)"
proof (intro conjI impI)
  show "keptDuration [] = 0"
    by (simp add: keptDuration_def)
  show "keptDuration (segs @ [s]) =
      (if keep s then to_double (keptDuration segs + to_double (end' s - start s))
       else keptDuration segs)"
    by (rule keptDuration_snoc)
  show "removedDuration pd segs = to_double (totalDuration pd - keptDuration segs)"
    by (simp add: removedDuration_def)
  show "totalDuration (pd\<lparr>duration := Some d\<rparr>) = d"
    by (rule totalDuration_Some)
  have "keptDuration segs + removedDuration pd segs - totalDuration pd =
      to_double (totalDuration pd - keptDuration segs) - (totalDuration pd - keptDuration segs)"
    by (simp add: removedDuration_def)
  then show "\<bar>keptDuration segs + removedDuration pd segs - totalDuration pd\<bar>
      \<le> 2 powr of_int (binary64_exponent (totalDuration pd - keptDuration segs)) / 2"
    by (simp only: to_double_error)
next
  assume "to_double (totalDuration pd - keptDuration segs) = totalDuration pd - keptDuration segs"
  then show "keptDuration segs + removedDuration pd segs = totalDuration pd"
    by (simp add: removedDuration_def)
qed

text \<open>
  The witness is the scenario of the specification: after \<^verbatim>\<open>toggleRange(4, 6)\<close> has removed
  the middle segment, 8 seconds are kept and 2 removed, of 10. All the numbers are small
  integers, so nothing is rounded.
\<close>

theorem stats_partition_up_to_rounding_witness:
  "keptDuration (toggleWordRange 4 6 scenario_segments) = 8
   \<and> to_double (totalDuration scenario_project - keptDuration (toggleWordRange 4 6 scenario_segments)) =
       totalDuration scenario_project - keptDuration (toggleWordRange 4 6 scenario_segments)
   \<and> removedDuration scenario_project (toggleWordRange 4 6 scenario_segments) = 2
   \<and> keptDuration (toggleWordRange 4 6 scenario_segments)
       + removedDuration scenario_project (toggleWordRange 4 6 scenario_segments) =
       totalDuration scenario_project"
proof -
  have kept: "keptDuration (toggleWordRange 4 6 scenario_segments) = 8"
    by (simp add: keptDuration_def toggleWordRange_def scenario_segments_def flip_keep_def)
  have total: "totalDuration scenario_project = 10"
    by (simp add: totalDuration_def scenario_project_def)
  have exact: "to_double (totalDuration scenario_project - keptDuration (toggleWordRange 4 6 scenario_segments)) =
      totalDuration scenario_project - keptDuration (toggleWordRange 4 6 scenario_segments)"
    by (simp add: kept total)
  show ?thesis
    using exact stats_partition_up_to_rounding [of "toggleWordRange 4 6 scenario_segments" _ scenario_project]
    by (simp add: kept total)
qed

text \<open>The binary64 values of the example, each obtained by one rounding.\<close>

lemma double_40_33: "to_double 40.33 = 5675942905370378 / 2 ^ 47"
  by (subst to_double_binade [where k = 47]) (simp_all add: round_half_even_def)

lemma double_236_77: "to_double 236.77 = 8330603779472753 / 2 ^ 45"
  by (subst to_double_binade [where k = 45]) (simp_all add: round_half_even_def)

lemma double_kept: "to_double (5675942905370378 / 2 ^ 47) = 5675942905370378 / 2 ^ 47"
  by (subst to_double_binade [where k = 47]) (simp_all add: round_half_even_def)

lemma double_removed:
  "to_double (8330603779472753 / 2 ^ 45 - 5675942905370378 / 2 ^ 47) = 6911618053130158 / 2 ^ 45"
  by (subst to_double_binade [where k = 45]) (simp_all add: round_half_even_def)

lemma double_sum:
  "to_double (5675942905370378 / 2 ^ 47 + 6911618053130158 / 2 ^ 45) = 8330603779472752 / 2 ^ 45"
  by (subst to_double_binade [where k = 45]) (simp_all add: round_half_even_def)

text \<open>
  C6, as the claim states it, fails. In the project of 236.77 seconds, \<^verbatim>\<open>toggle(1)\<close> removes
  the second segment and leaves \<open>[0, 40.33)\<close> kept. Then \<^verbatim>\<open>keptDuration\<close> is the binary64
  value of 40.33, the difference \<open>236.77 - 40.33\<close> lies exactly halfway between two binary64
  values and is rounded down to the even one, and neither the exact sum of the two
  statistics nor their binary64 sum \<^verbatim>\<open>keptDuration + removedDuration\<close> (which is
  236.76999999999998) is the duration.
\<close>

theorem stats_rounding_counterexample:
  "keptDuration (toggleSegment 1 rounding_segments)
     + removedDuration rounding_project (toggleSegment 1 rounding_segments)
     \<noteq> totalDuration rounding_project
   \<and> to_double (keptDuration (toggleSegment 1 rounding_segments)
     + removedDuration rounding_project (toggleSegment 1 rounding_segments))
     \<noteq> totalDuration rounding_project"
proof -
  have two: "keptDuration
      [\<lparr>start = 0, end' = k, keep = True, is_silence = False, text' = None\<rparr>,
       \<lparr>start = k, end' = d, keep = False, is_silence = True, text' = None\<rparr>] =
      to_double (to_double k)" for k d
    by (simp add: keptDuration_def)
  have segs: "toggleSegment 1 rounding_segments =
      [\<lparr>start = 0, end' = to_double 40.33, keep = True, is_silence = False, text' = None\<rparr>,
       \<lparr>start = to_double 40.33, end' = to_double 236.77, keep = False, is_silence = True,
        text' = None\<rparr>]"
    by (simp add: toggleSegment_def rounding_segments_def flip_keep_def enumerate_eq_zip upt_rec)
  have kept: "keptDuration (toggleSegment 1 rounding_segments) = 5675942905370378 / 2 ^ 47"
    by (simp only: segs two double_40_33 double_kept)
  have "totalDuration \<lparr>duration = Some d, segments = s, transcript = t\<rparr> = d" for d s t
    by (simp add: totalDuration_def)
  then have total: "totalDuration rounding_project = 8330603779472753 / 2 ^ 45"
    by (simp only: rounding_project_def double_236_77)
  have removed: "removedDuration rounding_project (toggleSegment 1 rounding_segments) =
      6911618053130158 / 2 ^ 45"
    by (simp only: removedDuration_def kept total double_removed)
  have "(5675942905370378 / 2 ^ 47 + 6911618053130158 / 2 ^ 45 :: real) \<noteq> 8330603779472753 / 2 ^ 45"
    by simp
  moreover have "(8330603779472752 / 2 ^ 45 :: real) \<noteq> 8330603779472753 / 2 ^ 45"
    by simp
  ultimately show ?thesis
    by (simp only: kept removed total double_sum simp_thms)
qed


section \<open>Which words are shown as removed\<close>

lemma isWordRemoved_iff:
  "isWordRemoved segs ws we \<longleftrightarrow> (\<exists>s \<in> set segs. \<not> keep s \<and> start s \<le> ws \<and> we \<le> end' s)"
  by (auto simp add: isWordRemoved_def removedRanges_def list_ex_iff)

lemma isWordRemoved_enclosed:
  assumes "isWordRemoved segs ws we"
  shows "fully_enclosed segs ws we"
proof -
  from assms obtain s where s: "s \<in> set segs" "\<not> keep s" "start s \<le> ws" "we \<le> end' s"
    by (auto simp add: isWordRemoved_iff)
  then have "{ws ..< we} \<subseteq> {start s ..< end' s}"
    by auto
  also from s have "\<dots> \<subseteq> removed_time segs"
    by (auto simp add: removed_time_def)
  finally show ?thesis
    by (simp add: fully_enclosed_def)
qed

text \<open>
  C4, as the code has it. \<^verbatim>\<open>isWordRemoved(start, end)\<close> is true exactly when one single
  segment with \<^verbatim>\<open>keep = false\<close> has \<open>segment.start \<le> start\<close> and \<open>end \<le> segment.end\<close>; for a
  word with \<open>start < end\<close> this says that the word's \<open>[start, end)\<close> lies in the
  \<open>[start, end)\<close> of that one segment. Whenever it is true, the word is fully enclosed by
  the removed ranges, so a word with an instant outside them (a partial overlap) is shown
  as kept.
\<close>

theorem isWordRemoved_one_enclosing_segment:
  "(isWordRemoved segs ws we \<longleftrightarrow>
      (\<exists>s \<in> set segs. \<not> keep s \<and> start s \<le> ws \<and> we \<le> end' s))
   \<and> (ws < we \<longrightarrow>
        (isWordRemoved segs ws we \<longleftrightarrow>
           (\<exists>s \<in> set segs. \<not> keep s \<and> {ws ..< we} \<subseteq> {start s ..< end' s})))
   \<and> (isWordRemoved segs ws we \<longrightarrow> fully_enclosed segs ws we)
   \<and> ((\<exists>t. ws \<le> t \<and> t < we \<and> t \<notin> removed_time segs) \<longrightarrow> \<not> isWordRemoved segs ws we)"
proof (intro conjI impI)
  show "isWordRemoved segs ws we \<longleftrightarrow>
      (\<exists>s \<in> set segs. \<not> keep s \<and> start s \<le> ws \<and> we \<le> end' s)"
    by (rule isWordRemoved_iff)
next
  assume "ws < we"
  then have "{ws ..< we} \<subseteq> {start s ..< end' s} \<longleftrightarrow> start s \<le> ws \<and> we \<le> end' s" for s :: segment
    by (simp add: ivl_subset)
  then show "isWordRemoved segs ws we \<longleftrightarrow>
      (\<exists>s \<in> set segs. \<not> keep s \<and> {ws ..< we} \<subseteq> {start s ..< end' s})"
    by (simp add: isWordRemoved_iff)
next
  assume "isWordRemoved segs ws we"
  then show "fully_enclosed segs ws we"
    by (rule isWordRemoved_enclosed)
next
  assume "\<exists>t. ws \<le> t \<and> t < we \<and> t \<notin> removed_time segs"
  then have "\<not> fully_enclosed segs ws we"
    by (auto simp add: fully_enclosed_def)
  then show "\<not> isWordRemoved segs ws we"
    using isWordRemoved_enclosed by blast
qed

text \<open>
  The witness is the scenario of the specification: the word W1 from 1.0 to 1.4 is shown
  as kept while the segment \<open>[0, 4)\<close> is kept, and as removed once \<^verbatim>\<open>toggleRange(0, 4)\<close> has
  removed that segment; a word from 3 to 5 then only partially overlaps the removed range
  and is shown as kept.
\<close>

theorem isWordRemoved_one_enclosing_segment_witness:
  "\<not> isWordRemoved scenario_segments 1 1.4
   \<and> isWordRemoved (toggleWordRange 0 4 scenario_segments) 1 1.4
   \<and> fully_enclosed (toggleWordRange 0 4 scenario_segments) 1 1.4
   \<and> (4::real) \<notin> removed_time (toggleWordRange 0 4 scenario_segments)
   \<and> \<not> isWordRemoved (toggleWordRange 0 4 scenario_segments) 3 5"
proof -
  have out: "(4::real) \<notin> removed_time (toggleWordRange 0 4 scenario_segments)"
    by (simp add: removed_time_def toggleWordRange_def scenario_segments_def flip_keep_def)
  then have ex: "\<exists>t::real. 3 \<le> t \<and> t < 5 \<and> t \<notin> removed_time (toggleWordRange 0 4 scenario_segments)"
    by (intro exI [of _ 4]) simp
  have kept: "\<not> isWordRemoved scenario_segments 1 1.4"
    by (simp add: isWordRemoved_def removedRanges_def scenario_segments_def)
  have removed: "isWordRemoved (toggleWordRange 0 4 scenario_segments) 1 1.4"
    by (simp add: isWordRemoved_def removedRanges_def toggleWordRange_def scenario_segments_def
        flip_keep_def)
  show ?thesis
    using out ex kept removed
      isWordRemoved_one_enclosing_segment [of "toggleWordRange 0 4 scenario_segments" 1 "1.4"]
      isWordRemoved_one_enclosing_segment [of "toggleWordRange 0 4 scenario_segments" 3 5]
    by blast
qed

text \<open>
  C4, as the claim states it, fails: with the segments \<open>[0, 4)\<close> and \<open>[4, 8)\<close> both removed,
  every instant of a word from 3 to 5 lies in a removed range, yet no single removed
  segment encloses the word and \<^verbatim>\<open>isWordRemoved(3, 5)\<close> is false.
\<close>

theorem isWordRemoved_straddling_counterexample:
  "fully_enclosed two_removed_segments 3 5 \<and> \<not> isWordRemoved two_removed_segments 3 5"
  by (auto simp add: fully_enclosed_def removed_time_def isWordRemoved_def removedRanges_def
      two_removed_segments_def)

section \<open>Seeking\<close>



text \<open>
  \<^verbatim>\<open>seekTo\<close> has no clamp of its own: with a media element attached it stores the time it
  is given, whatever it is.
\<close>

lemma seekTo_with_element:
  "videoRef ed = Some v \<Longrightarrow>
   seekTo time ed = ed\<lparr>videoRef := Some (v\<lparr>video_currentTime := time\<rparr>), currentTime := time\<rparr>"
  by (simp add: seekTo_def)







section \<open>Workflow\<close>

lemma failure_message_nonempty:
  assumes "fallback \<noteq> []"
  shows "\<exists>m. failure_message err fallback = Some m \<and> m \<noteq> []"
  using assms by (simp add: failure_message_def js_or_def split: option.splits)

lemma handleUpload_failure:
  assumes "screen (handleUpload api files threshold a) = Upload"
  shows "\<exists>m. error (handleUpload api files threshold a) = Some m \<and> m \<noteq> []"
    and "projectData (handleUpload api files threshold a) = projectData a"
  using assms failure_message_nonempty [of "''Upload failed''"]
  by (auto simp add: handleUpload_def Let_def split: sum.splits)

lemma handleUpload_analyze_failure:
  assumes "uploadVideos api files = Inr project_id"
    and "analyzeVideo api project_id threshold = Inl err"
  shows "handleUpload api files threshold a =
      a\<lparr>screen := Upload, projectId := Some project_id,
        error := failure_message err ''Upload failed''\<rparr>"
  using assms by (simp add: handleUpload_def Let_def)

lemma idle_entries_that_clear:
  "handleReset a = \<lparr>screen = Upload, projectId = None, projectData = None, error = None\<rparr>"
  "handleExport_timer a = \<lparr>screen = Upload, projectId = None, projectData = None, error = error a\<rparr>"
  by (simp_all add: handleReset_def handleExport_timer_def)

text \<open>
  C2, the code at a failing input. From the initial state, one file is submitted, the upload
  resolves with the project id \<open>p1\<close> and the analysis is rejected with a transport error.
  The application is back on the upload screen (Idle) with a non-empty message and no
  project data, but \<^verbatim>\<open>projectId\<close> still holds \<open>p1\<close>: the \<^verbatim>\<open>catch\<close> block of \<^verbatim>\<open>handleUpload\<close>
  has no \<^verbatim>\<open>setProjectId(null)\<close>, which \<^verbatim>\<open>handleReset\<close> and the timer after an export do
  have.
\<close>

theorem analyze_failure_keeps_project_id:
  "handleSubmit api_analyze_fails [''a.mp4''] 1 initial_app =
     \<lparr>screen = Upload, projectId = Some ''p1'', projectData = None,
      error = Some ''Network Error''\<rparr>
   \<and> projectId (handleReset (handleSubmit api_analyze_fails [''a.mp4''] 1 initial_app)) = None"
  by (simp add: handleSubmit_def handleUpload_def handleReset_def api_analyze_fails_def api_ok_def
      initial_app_def network_error_def failure_message_def js_or_def)

lemma render_processing:
  "screen (app u) = Processing \<Longrightarrow> render u = u\<lparr>editor := None\<rparr>"
  by (simp add: render_def split: option.splits)

lemma render_mounts:
  "screen (app u) = Editor \<Longrightarrow> projectData (app u) = Some pd \<Longrightarrow> editor u = None \<Longrightarrow>
   render u = u\<lparr>editor := Some (mount_editor pd)\<rparr>"
  by (simp add: render_def)

lemma export_failure_remounts:
  assumes "projectData (app u) = Some pd" and "editor u = Some ed"
    and "updateSegments api (projectId (app u)) (segments' ed) = Inr ()"
    and "exportVideo api (projectId (app u)) = Inl err"
  shows "export_clicked api u =
      \<lparr>app = (app u)\<lparr>screen := Editor, error := failure_message err ''Export failed''\<rparr>,
       editor = Some (mount_editor pd)\<rparr>"
proof -
  have u1: "render (u\<lparr>app := handleExport_begin (app u)\<rparr>) =
      \<lparr>app = handleExport_begin (app u), editor = None\<rparr>"
    by (simp add: render_processing handleExport_begin_def)
  have a2: "handleExport_settle api (segments' ed) (handleExport_begin (app u)) =
      (app u)\<lparr>screen := Editor, error := failure_message err ''Export failed''\<rparr>"
    using assms(3,4) by (simp add: handleExport_settle_def handleExport_begin_def)
  have u2: "render \<lparr>app = (app u)\<lparr>screen := Editor, error := failure_message err ''Export failed''\<rparr>,
        editor = None\<rparr> =
      \<lparr>app = (app u)\<lparr>screen := Editor, error := failure_message err ''Export failed''\<rparr>,
       editor = Some (mount_editor pd)\<rparr>"
    using assms(1) by (simp add: render_mounts [of _ pd])
  have "export_clicked api u =
      render (\<lparr>app = handleExport_begin (app u), editor = None\<rparr>
        \<lparr>app := handleExport_settle api (segments' ed) (handleExport_begin (app u))\<rparr>)"
    using assms(2) by (simp add: export_clicked_def Let_def u1)
  also have "\<dots> = render \<lparr>app = (app u)\<lparr>screen := Editor, error := failure_message err ''Export failed''\<rparr>,
        editor = None\<rparr>"
    by (simp add: a2)
  finally show ?thesis
    by (simp only: u2)
qed

text \<open>
  C1, the code at a failing input. The scenario project is uploaded and analysed, the
  middle segment is toggled in the editor (its \<^verbatim>\<open>keep\<close> becomes false), and export is
  pressed; persisting the edits succeeds and the export request is rejected. The
  application is back on the editor screen with the failure message, but the segment list
  is the one of the analysis result again (all kept): the editor was removed while the
  processing screen was shown and is created anew from \<^verbatim>\<open>projectData.segments\<close>, so the
  edit made before the export is gone.
\<close>

theorem export_failure_discards_edits:
  "map_option (map keep \<circ> segments')
     (editor (edit_ui (Toggle 1) (submit_clicked api_export_fails [''a.mp4''] 1 initial_ui))) =
     Some [True, False, True]
   \<and> screen (app (export_clicked api_export_fails
       (edit_ui (Toggle 1) (submit_clicked api_export_fails [''a.mp4''] 1 initial_ui)))) = Editor
   \<and> error (app (export_clicked api_export_fails
       (edit_ui (Toggle 1) (submit_clicked api_export_fails [''a.mp4''] 1 initial_ui)))) =
     Some ''Network Error''
   \<and> map_option (map keep \<circ> segments')
     (editor (export_clicked api_export_fails
       (edit_ui (Toggle 1) (submit_clicked api_export_fails [''a.mp4''] 1 initial_ui)))) =
     Some [True, True, True]"
  by (simp add: submit_clicked_def handleSubmit_def handleUpload_def api_export_fails_def
      api_ok_def initial_ui_def initial_app_def render_def mount_editor_def initial_segments_def
      scenario_project_def scenario_segments_def edit_ui_def toggleSegment_def flip_keep_def
      export_clicked_def handleExport_begin_def handleExport_settle_def network_error_def
      failure_message_def js_or_def enumerate_eq_zip upt_rec)


end
